theory Spec2Isabelle
  imports Complex_Main
begin

section \<open>Data model of main.go\<close>

text \<open>
  The Go structs of \<^verbatim>\<open>main.go\<close> become records. Go allows the same field name in
  several structs; record fields are global constants, so every field carries a short
  prefix for its struct: \<open>c_\<close> (ContactDoc), \<open>m_\<close> (VisitReportModel), \<open>r_\<close>
  (VisitReportReadDoc), \<open>e_\<close> (VisitReportEventDoc), \<open>u_\<close> (VisitReportUpdateDoc).
  A Go \<^verbatim>\<open>float64\<close> is only ever copied from one struct to another by the code below,
  never computed with, so it is carried as a real number. An \<^verbatim>\<open>error\<close> value is its
  message.
\<close>

type_synonym float64 = real
type_synonym error = string

record ContactDoc =
  c_Id :: string
  c_Firstname :: string
  c_Lastname :: string
  c_AvatarLocation :: string
  c_Company :: string

text \<open>
  \<^verbatim>\<open>VisitReportModel\<close> embeds \<^verbatim>\<open>cosmosapi.Document\<close>; of the embedded resource only the
  promoted field \<^verbatim>\<open>Id\<close> is read or written by the program (the others are metadata that
  the document store manages), so only \<open>m_Id\<close> is kept.
\<close>

record VisitReportModel =
  m_Id :: string
  m_Type :: string
  m_DetectedLanguage :: string
  m_Subject :: string
  m_Description :: string
  m_VisitDate :: string
  m_Result :: string
  m_VisitResultSentimentScore :: float64
  m_VisitResultKeyPhrases :: "string list"
  m_Contact :: ContactDoc

record VisitReportReadDoc =
  r_Id :: string
  r_Subject :: string
  r_Description :: string
  r_VisitDate :: string
  r_Result :: string
  r_VisitResultSentimentScore :: float64
  r_VisitResultKeyPhrases :: "string list"
  r_Contact :: ContactDoc

text \<open>
  \<^verbatim>\<open>VisitReportEventDoc\<close> is \<^verbatim>\<open>EventType\<close>, \<^verbatim>\<open>Version\<close> and an embedded
  \<^verbatim>\<open>VisitReportReadDoc\<close>: a record extension of the embedded struct.
\<close>

record VisitReportEventDoc = VisitReportReadDoc +
  e_EventType :: string
  e_Version :: string

record VisitReportUpdateDoc =
  u_Id :: string
  u_Subject :: string
  u_Description :: string
  u_Result :: string
  u_VisitDate :: string
  u_Contact :: ContactDoc

text \<open>The zero values of Go: what \<^verbatim>\<open>ContactDoc{}\<close>, \<^verbatim>\<open>VisitReportModel{}\<close>, ... denote.\<close>

definition zero_ContactDoc :: ContactDoc where
  "zero_ContactDoc =
     \<lparr>c_Id = [], c_Firstname = [], c_Lastname = [], c_AvatarLocation = [], c_Company = []\<rparr>"

definition zero_VisitReportModel :: VisitReportModel where
  "zero_VisitReportModel =
     \<lparr>m_Id = [], m_Type = [], m_DetectedLanguage = [], m_Subject = [], m_Description = [],
      m_VisitDate = [], m_Result = [], m_VisitResultSentimentScore = 0,
      m_VisitResultKeyPhrases = [], m_Contact = zero_ContactDoc\<rparr>"

definition zero_VisitReportReadDoc :: VisitReportReadDoc where
  "zero_VisitReportReadDoc =
     \<lparr>r_Id = [], r_Subject = [], r_Description = [], r_VisitDate = [], r_Result = [],
      r_VisitResultSentimentScore = 0, r_VisitResultKeyPhrases = [],
      r_Contact = zero_ContactDoc\<rparr>"

definition zero_VisitReportEventDoc :: VisitReportEventDoc where
  "zero_VisitReportEventDoc =
     \<lparr>r_Id = [], r_Subject = [], r_Description = [], r_VisitDate = [], r_Result = [],
      r_VisitResultSentimentScore = 0, r_VisitResultKeyPhrases = [],
      r_Contact = zero_ContactDoc, e_EventType = [], e_Version = []\<rparr>"

record Message =
  ContentType :: string
  Data :: string

section \<open>The collaborators: document store, JSON codec, service bus\<close>

text \<open>
  Every store call of \<^verbatim>\<open>main.go\<close> addresses the same database
  (\<^verbatim>\<open>currentCfg.DbName\<close>), the same collection (\<^verbatim>\<open>"visitreports"\<close>) and the same partition
  key value (\<^verbatim>\<open>"visitreport"\<close>). A \<open>collection\<close> is the content of that partition: the
  documents in it, each found under its \<open>m_Id\<close>.

  The libraries behind the calls (cosmosapi, encoding/json, azure-service-bus-go,
  google/uuid) are not part of the repository. What they answer is a parameter of the
  model, the record \<open>env\<close>: the result of decoding a payload, the result of serialising
  an event, the next generated uuid, and for every call that can fail the error it
  returns, if any (\<open>None\<close>: the call succeeds). A replace, create, get or delete call
  fails per document id, so that within one fan-out any subset of the replaces can fail.
\<close>

type_synonym collection = "VisitReportModel list"

record env =
  Unmarshal :: "string \<Rightarrow> ContactDoc \<times> error option"
  Marshal :: "VisitReportEventDoc \<Rightarrow> error + string"
  uuid_New :: string
  query_err :: "error option"
  get_err :: "string \<Rightarrow> error option"
  create_err :: "string \<Rightarrow> error option"
  replace_err :: "string \<Rightarrow> error option"
  delete_err :: "string \<Rightarrow> error option"
  send_err :: "error option"
  complete_err :: "error option"

text \<open>
  The calls the program makes on its collaborators, in the order it makes them, and the
  lines it prints for errors. \<open>DoSend\<close> carries the topic name, the deadline of its context in
  seconds, and the message. The progress lines of \<^verbatim>\<open>updateInBg\<close> (\<^verbatim>\<open>Processing....\<close>,
  \<^verbatim>\<open>Request Units\<close>) are not recorded.
\<close>

datatype action =
    DoAbandon
  | DoComplete
  | DoQuery string
  | DoGet string
  | DoCreate VisitReportModel
  | DoReplace string VisitReportModel
  | DoDelete string
  | DoSend string nat Message
  | Print string

definition log_err :: "error option \<Rightarrow> action list" where
  "log_err e = (case e of None \<Rightarrow> [] | Some msg \<Rightarrow> [Print msg])"

text \<open>
  \<^verbatim>\<open>SELECT * FROM c where c.contact.id = @contactid\<close>: the documents of the partition
  whose embedded contact has the given id. A failed query leaves \<^verbatim>\<open>docs\<close> as declared,
  the nil slice.
\<close>

definition QueryDocuments :: "env \<Rightarrow> string \<Rightarrow> collection \<Rightarrow> VisitReportModel list \<times> error option" where
  "QueryDocuments ev contactid coll =
     (case query_err ev of
        Some e \<Rightarrow> ([], Some e)
      | None \<Rightarrow> (filter (\<lambda>d. c_Id (m_Contact d) = contactid) coll, None))"

definition has_doc :: "string \<Rightarrow> collection \<Rightarrow> bool" where
  "has_doc i coll = list_ex (\<lambda>d. m_Id d = i) coll"

definition doc_at :: "string \<Rightarrow> collection \<Rightarrow> VisitReportModel option" where
  "doc_at i coll = find (\<lambda>d. m_Id d = i) coll"

fun put_doc :: "string \<Rightarrow> VisitReportModel \<Rightarrow> collection \<Rightarrow> collection" where
  "put_doc i d [] = []"
| "put_doc i d (x # xs) = (if m_Id x = i then d # xs else x # put_doc i d xs)"

text \<open>
  \<^verbatim>\<open>ReplaceDocument(ctx, db, "visitreports", id, doc, ops)\<close>: the document stored under
  \<open>id\<close> becomes \<open>doc\<close>; the call fails when the store says so or when there is no
  document under \<open>id\<close>, and then the collection is as before.
\<close>

definition ReplaceDocument :: "env \<Rightarrow> string \<Rightarrow> VisitReportModel \<Rightarrow> collection \<Rightarrow> collection \<times> error option" where
  "ReplaceDocument ev i d coll =
     (case replace_err ev i of
        Some e \<Rightarrow> (coll, Some e)
      | None \<Rightarrow> if has_doc i coll then (put_doc i d coll, None)
                else (coll, Some ''404 Not Found''))"

text \<open>
  \<^verbatim>\<open>GetDocument(ctx, db, "visitreports", id, ro, &doc)\<close>: on success \<open>doc\<close> is the stored
  document; on failure the target keeps the value it had, which is the zero value at
  both call sites.
\<close>

definition GetDocument :: "env \<Rightarrow> string \<Rightarrow> collection \<Rightarrow> VisitReportModel \<times> error option" where
  "GetDocument ev i coll =
     (case get_err ev i of
        Some e \<Rightarrow> (zero_VisitReportModel, Some e)
      | None \<Rightarrow> (case doc_at i coll of
                   Some d \<Rightarrow> (d, None)
                 | None \<Rightarrow> (zero_VisitReportModel, Some ''404 Not Found'')))"

text \<open>
  \<^verbatim>\<open>CreateDocument\<close>: the document is added under its own id and the id is returned as
  the resource; the call fails when the store says so or when the id is taken.
\<close>

definition CreateDocument :: "env \<Rightarrow> VisitReportModel \<Rightarrow> collection \<Rightarrow> collection \<times> (error + string)" where
  "CreateDocument ev d coll =
     (case create_err ev (m_Id d) of
        Some e \<Rightarrow> (coll, Inl e)
      | None \<Rightarrow> if has_doc (m_Id d) coll then (coll, Inl ''409 Conflict'')
                else (coll @ [d], Inr (m_Id d)))"

definition DeleteDocument :: "env \<Rightarrow> string \<Rightarrow> collection \<Rightarrow> collection \<times> error option" where
  "DeleteDocument ev i coll =
     (case delete_err ev i of
        Some e \<Rightarrow> (coll, Some e)
      | None \<Rightarrow> if has_doc i coll then (filter (\<lambda>d. m_Id d \<noteq> i) coll, None)
                else (coll, Some ''404 Not Found''))"

section \<open>The contact listener: setupSubscription and updateInBg\<close>

text \<open>
  The assignments of \<^verbatim>\<open>updateInBg\<close> to its copy of the report, before the replace call.
\<close>

definition apply_contact :: "ContactDoc \<Rightarrow> VisitReportModel \<Rightarrow> VisitReportModel" where
  "apply_contact contact doc =
     doc\<lparr>m_Contact := (m_Contact doc)\<lparr>c_Firstname := c_Firstname contact,
                                       c_Lastname := c_Lastname contact,
                                       c_AvatarLocation := c_AvatarLocation contact,
                                       c_Company := c_Company contact\<rparr>,
         m_Type := ''visitreport''\<rparr>"

text \<open>
  \<^verbatim>\<open>updateInBg(doc, contact, wg)\<close>: overwrite, replace under \<^verbatim>\<open>doc.Id\<close>, print the error
  if there is one. It returns nothing: a failed replace is seen by nobody.
\<close>

definition updateInBg :: "env \<Rightarrow> VisitReportModel \<Rightarrow> ContactDoc \<Rightarrow> collection \<Rightarrow> collection \<times> action list" where
  "updateInBg ev doc contact coll =
     (let doc' = apply_contact contact doc;
          (coll', err) = ReplaceDocument ev (m_Id doc') doc' coll
      in (coll', DoReplace (m_Id doc') doc' # log_err err))"

text \<open>
  The loop \<^verbatim>\<open>for _, v := range docs { wg.Add(1); go updateInBg(v, &doc, &wg) }\<close> followed
  by \<^verbatim>\<open>wg.Wait()\<close>. Each goroutine makes one store call, on the id of its own report, and
  the handler goes on only when all have returned. The order in which the goroutines
  reach the store is not fixed by the program; \<open>fan_out\<close> runs the reports in the order
  of the list it is given, and the handler gives it the query result. The place of a
  replace call among the others in a run is therefore one of the possible orders, not
  the only one; the collection afterwards and the set of calls made are the same for
  every order (\<open>fan_out_order_irrelevant\<close>, \<open>fan_out_replaces\<close>).
\<close>

fun fan_out :: "env \<Rightarrow> VisitReportModel list \<Rightarrow> ContactDoc \<Rightarrow> collection \<Rightarrow> collection \<times> action list" where
  "fan_out ev [] contact coll = (coll, [])"
| "fan_out ev (v # vs) contact coll =
     (let (coll1, t1) = updateInBg ev v contact coll;
          (coll2, t2) = fan_out ev vs contact coll1
      in (coll2, t1 @ t2))"

text \<open>
  The handler passed to \<^verbatim>\<open>receiver.Listen\<close>. After a decoding error it abandons the
  message and prints the error twice (the two \<^verbatim>\<open>if err != nil\<close> blocks); neither block
  returns, so the query, the fan-out and \<^verbatim>\<open>m.Complete\<close> follow in every case. The result
  is the collection afterwards, the calls made, and the error returned to the receiver.
\<close>

definition listen_handler :: "env \<Rightarrow> Message \<Rightarrow> collection \<Rightarrow> collection \<times> action list \<times> error option" where
  "listen_handler ev m coll =
     (let (doc, err) = Unmarshal ev (Data m);
          t_decode = (case err of None \<Rightarrow> [] | Some e \<Rightarrow> [DoAbandon, Print e, Print e]);
          (docs, errQuery) = QueryDocuments ev (c_Id doc) coll;
          t_query = DoQuery (c_Id doc) # log_err errQuery;
          (coll', t_fan) = fan_out ev docs doc coll
      in (coll', t_decode @ t_query @ t_fan @ [DoComplete], complete_err ev))"

section \<open>The HTTP handlers: create, update, delete\<close>

text \<open>
  What a handler writes to its \<^verbatim>\<open>gin.Context\<close>: \<^verbatim>\<open>c.JSON(code, obj)\<close>,
  \<^verbatim>\<open>c.Status(code)\<close>, \<^verbatim>\<open>c.AbortWithError(code, err)\<close>. A handler that returns without any
  of them has written nothing: the list is empty. Binding and validation of the request
  body (\<^verbatim>\<open>c.ShouldBindJSON\<close>) belong to the framework; a handler is given its outcome,
  the binding error or the bound struct.
\<close>

datatype json_body = H_error string | ReadDocBody VisitReportReadDoc

datatype http_write = JSON nat json_body | Status nat | AbortWithError nat error

text \<open>
  \<^verbatim>\<open>copier.Copy(to, from)\<close> assigns every field of \<open>from\<close> to the field of \<open>to\<close> that has the
  same name, promoted fields of embedded structs included, and leaves the other fields
  of \<open>to\<close> as they are. One definition for each pair of struct types the handlers use;
  the first argument is the target, as in Go, and the result is the target afterwards.
\<close>

definition Copy_ReadDoc_from_Model ::
    "'a VisitReportReadDoc_scheme \<Rightarrow> VisitReportModel \<Rightarrow> 'a VisitReportReadDoc_scheme" where
  "Copy_ReadDoc_from_Model to from =
     to\<lparr>r_Id := m_Id from, r_Subject := m_Subject from, r_Description := m_Description from,
        r_VisitDate := m_VisitDate from, r_Result := m_Result from,
        r_VisitResultSentimentScore := m_VisitResultSentimentScore from,
        r_VisitResultKeyPhrases := m_VisitResultKeyPhrases from,
        r_Contact := m_Contact from\<rparr>"

definition Copy_Model_from_UpdateDoc ::
    "VisitReportModel \<Rightarrow> VisitReportUpdateDoc \<Rightarrow> VisitReportModel" where
  "Copy_Model_from_UpdateDoc to from =
     to\<lparr>m_Id := u_Id from, m_Subject := u_Subject from, m_Description := u_Description from,
        m_Result := u_Result from, m_VisitDate := u_VisitDate from,
        m_Contact := u_Contact from\<rparr>"

definition Copy_Model_from_ReadDoc ::
    "VisitReportModel \<Rightarrow> VisitReportReadDoc \<Rightarrow> VisitReportModel" where
  "Copy_Model_from_ReadDoc to from =
     to\<lparr>m_Id := r_Id from, m_Subject := r_Subject from, m_Description := r_Description from,
        m_VisitDate := r_VisitDate from, m_Result := r_Result from,
        m_VisitResultSentimentScore := r_VisitResultSentimentScore from,
        m_VisitResultKeyPhrases := r_VisitResultKeyPhrases from,
        m_Contact := r_Contact from\<rparr>"

text \<open>
  \<^verbatim>\<open>create\<close>. The topic is \<^verbatim>\<open>currentTopic\<close>, which \<^verbatim>\<open>setupTopicSender\<close> opens as
  \<^verbatim>\<open>"scmvrtopic"\<close>; the context of the send has a timeout of \<^verbatim>\<open>10*time.Second\<close>. The two
  error branches of the publication print and return, before \<^verbatim>\<open>c.JSON\<close> is reached.
\<close>

definition create ::
    "env \<Rightarrow> error + VisitReportModel \<Rightarrow> collection \<Rightarrow> collection \<times> action list \<times> http_write list" where
  "create ev bound coll =
     (case bound of
        Inl e \<Rightarrow> (coll, [], [JSON 400 (H_error e)])
      | Inr vr0 \<Rightarrow>
          (let vr = vr0\<lparr>m_Type := ''visitreport'', m_Id := uuid_New ev\<rparr>
           in case CreateDocument ev vr coll of
                (coll1, Inl e) \<Rightarrow> (coll1, [DoCreate vr, Print e], [AbortWithError 500 e])
              | (coll1, Inr reportid) \<Rightarrow>
                  (let (doc, errRead) = GetDocument ev reportid coll1;
                       t = [DoCreate vr, DoGet reportid] @ log_err errRead;
                       eventDoc = (Copy_ReadDoc_from_Model zero_VisitReportEventDoc doc)
                                    \<lparr>e_EventType := ''VisitReportCreatedEvent'', e_Version := ''1''\<rparr>
                   in case Marshal ev eventDoc of
                        Inl e \<Rightarrow> (coll1, t @ [Print (''Error: '' @ e)], [])
                      | Inr m \<Rightarrow>
                          (let sbMessage = \<lparr>ContentType = ''application/json'', Data = m\<rparr>;
                               t' = t @ [DoSend ''scmvrtopic'' 10 sbMessage]
                           in case send_err ev of
                                Some e \<Rightarrow> (coll1, t' @ [Print (''Error: '' @ e)], [])
                              | None \<Rightarrow>
                                  (let out = Copy_ReadDoc_from_Model zero_VisitReportReadDoc doc
                                   in (coll1, t', [JSON 201 (ReadDocBody out)]))))))"

text \<open>
  \<^verbatim>\<open>update\<close>. A failed \<^verbatim>\<open>GetDocument\<close> is printed and the handler goes on with the zero
  model. The last copy is \<^verbatim>\<open>copier.Copy(&model, &doc)\<close>: its target is \<open>model\<close> and its
  source the fresh \<^verbatim>\<open>VisitReportReadDoc{}\<close>, and \<open>doc\<close> is what \<^verbatim>\<open>c.JSON\<close> sends.
\<close>

definition update ::
    "env \<Rightarrow> string \<Rightarrow> error + VisitReportUpdateDoc \<Rightarrow> collection
       \<Rightarrow> collection \<times> action list \<times> http_write list" where
  "update ev reportid bound coll =
     (case bound of
        Inl e \<Rightarrow> (coll, [], [JSON 400 (H_error e)])
      | Inr vr \<Rightarrow>
          (let (model0, err) = GetDocument ev reportid coll;
               t0 = DoGet reportid # log_err err;
               model = Copy_Model_from_UpdateDoc model0 vr
           in case ReplaceDocument ev reportid model coll of
                (coll1, Some e) \<Rightarrow>
                  (coll1, t0 @ [DoReplace reportid model, Print e], [AbortWithError 500 e])
              | (coll1, None) \<Rightarrow>
                  (let t = t0 @ [DoReplace reportid model];
                       eventDoc = (Copy_ReadDoc_from_Model zero_VisitReportEventDoc model)
                                    \<lparr>e_EventType := ''VisitReportUpdatedEvent'', e_Version := ''1''\<rparr>
                   in case Marshal ev eventDoc of
                        Inl e \<Rightarrow> (coll1, t @ [Print (''Error: '' @ e)], [])
                      | Inr m \<Rightarrow>
                          (let sbMessage = \<lparr>ContentType = ''application/json'', Data = m\<rparr>;
                               t' = t @ [DoSend ''scmvrtopic'' 10 sbMessage]
                           in case send_err ev of
                                Some e \<Rightarrow> (coll1, t' @ [Print (''Error: '' @ e)], [])
                              | None \<Rightarrow>
                                  (let doc = zero_VisitReportReadDoc;
                                       model' = Copy_Model_from_ReadDoc model doc
                                   in (coll1, t', [JSON 200 (ReadDocBody doc)]))))))"

text \<open>\<^verbatim>\<open>delete\<close>: the error of the store call is printed; \<^verbatim>\<open>c.Status(200)\<close> follows.\<close>

definition delete ::
    "env \<Rightarrow> string \<Rightarrow> collection \<Rightarrow> collection \<times> action list \<times> http_write list" where
  "delete ev reportid coll =
     (let (coll', err) = DeleteDocument ev reportid coll
      in (coll', DoDelete reportid # log_err err, [Status 200]))"

section \<open>Observations on a run\<close>

text \<open>
  The properties below read a run through these: which calls settle the message, which
  go to the store, which are replaces, which are sends.
\<close>

fun is_ack :: "action \<Rightarrow> bool" where
  "is_ack DoAbandon = True"
| "is_ack DoComplete = True"
| "is_ack _ = False"

fun is_store_call :: "action \<Rightarrow> bool" where
  "is_store_call (DoQuery _) = True"
| "is_store_call (DoGet _) = True"
| "is_store_call (DoCreate _) = True"
| "is_store_call (DoReplace _ _) = True"
| "is_store_call (DoDelete _) = True"
| "is_store_call _ = False"

fun is_replace :: "action \<Rightarrow> bool" where
  "is_replace (DoReplace _ _) = True"
| "is_replace _ = False"

fun is_send :: "action \<Rightarrow> bool" where
  "is_send (DoSend _ _ _) = True"
| "is_send _ = False"

text \<open>
  What one run of the listener does to one stored report, as the lemmas below establish:
  a report is overwritten when the query succeeded, its embedded contact id is the
  notification's, and its replace succeeded; otherwise it stays.
\<close>

definition touched :: "env \<Rightarrow> ContactDoc \<Rightarrow> VisitReportModel \<Rightarrow> bool" where
  "touched ev contact d \<longleftrightarrow>
     query_err ev = None \<and> c_Id (m_Contact d) = c_Id contact \<and> replace_err ev (m_Id d) = None"

section \<open>Concrete runs\<close>

text \<open>
  Two contacts, three stored reports (two of contact \<^verbatim>\<open>c1\<close>), and three payloads with
  what \<^verbatim>\<open>json.Unmarshal\<close> answers on each: the changed contact \<^verbatim>\<open>c1\<close>; a payload whose
  \<^verbatim>\<open>firstname\<close> is a number, where encoding/json fills the other fields, skips the
  mistyped one and returns an \<^verbatim>\<open>UnmarshalTypeError\<close>; and text that is no JSON at all,
  where it returns a \<^verbatim>\<open>SyntaxError\<close> and leaves the target untouched.
\<close>

definition ann :: ContactDoc where
  "ann = \<lparr>c_Id = ''c1'', c_Firstname = ''Ann'', c_Lastname = ''Lee'',
          c_AvatarLocation = ''ann.png'', c_Company = ''Acme''\<rparr>"

definition anna :: ContactDoc where
  "anna = \<lparr>c_Id = ''c1'', c_Firstname = ''Anna'', c_Lastname = ''Leigh'',
           c_AvatarLocation = ''anna.png'', c_Company = ''Apex''\<rparr>"

definition bob :: ContactDoc where
  "bob = \<lparr>c_Id = ''c2'', c_Firstname = ''Bob'', c_Lastname = ''Ray'',
          c_AvatarLocation = ''bob.png'', c_Company = ''Bolt''\<rparr>"

definition report1 :: VisitReportModel where
  "report1 = \<lparr>m_Id = ''r1'', m_Type = ''visitreport'', m_DetectedLanguage = ''en'',
              m_Subject = ''Q1 review'', m_Description = ''first visit'',
              m_VisitDate = ''2020-10-01'', m_Result = ''good'',
              m_VisitResultSentimentScore = 1, m_VisitResultKeyPhrases = [''review''],
              m_Contact = ann\<rparr>"

definition report2 :: VisitReportModel where
  "report2 = \<lparr>m_Id = ''r2'', m_Type = ''visitreport'', m_DetectedLanguage = ''en'',
              m_Subject = ''Q2 review'', m_Description = ''second visit'',
              m_VisitDate = ''2020-11-01'', m_Result = [],
              m_VisitResultSentimentScore = 0, m_VisitResultKeyPhrases = [],
              m_Contact = ann\<rparr>"

definition report3 :: VisitReportModel where
  "report3 = \<lparr>m_Id = ''r3'', m_Type = ''visitreport'', m_DetectedLanguage = ''en'',
              m_Subject = ''Kickoff'', m_Description = ''other contact'',
              m_VisitDate = ''2020-12-01'', m_Result = ''open'',
              m_VisitResultSentimentScore = 0, m_VisitResultKeyPhrases = [],
              m_Contact = bob\<rparr>"

definition store0 :: collection where
  "store0 = [report1, report3, report2]"

definition msg_anna :: Message where
  \<open>msg_anna = \<lparr>ContentType = ''application/json'',
     Data = ''{"id":"c1","firstname":"Anna","lastname":"Leigh","avatarLocation":"anna.png","company":"Apex"}''\<rparr>\<close>

definition msg_mistyped :: Message where
  \<open>msg_mistyped = \<lparr>ContentType = ''application/json'', Data = ''{"id":"c1","firstname":5}''\<rparr>\<close>

definition msg_garbage :: Message where
  "msg_garbage = \<lparr>ContentType = ''text/plain'', Data = ''not json''\<rparr>"

definition json_Unmarshal :: "string \<Rightarrow> ContactDoc \<times> error option" where
  "json_Unmarshal payload =
     (if payload = Data msg_anna then (anna, None)
      else if payload = Data msg_mistyped
        then (zero_ContactDoc\<lparr>c_Id := ''c1''\<rparr>,
              Some ''json: cannot unmarshal number into Go struct field ContactDoc.firstname of type string'')
      else (zero_ContactDoc, Some ''invalid character 'o' in literal null (expecting 'u')''))"

text \<open>A stand-in for \<^verbatim>\<open>json.Marshal\<close> on events: it succeeds, with the type and id as text.\<close>

definition json_Marshal :: "VisitReportEventDoc \<Rightarrow> error + string" where
  "json_Marshal evd = Inr (e_EventType evd @ '' '' @ e_Version evd @ '' '' @ r_Id evd)"

definition env_ok :: env where
  "env_ok = \<lparr>Unmarshal = json_Unmarshal, Marshal = json_Marshal, uuid_New = ''r4'',
             query_err = None, get_err = (\<lambda>i. None), create_err = (\<lambda>i. None),
             replace_err = (\<lambda>i. None), delete_err = (\<lambda>i. None),
             send_err = None, complete_err = None\<rparr>"

definition env_replace_fails :: "string \<Rightarrow> env" where
  "env_replace_fails i =
     env_ok\<lparr>replace_err := (\<lambda>j. if j = i then Some ''503 Service Unavailable'' else None)\<rparr>"

definition env_query_fails :: env where
  "env_query_fails = env_ok\<lparr>query_err := Some ''408 Request Timeout''\<rparr>"

definition env_send_fails :: env where
  "env_send_fails = env_ok\<lparr>send_err := Some ''context deadline exceeded''\<rparr>"

definition env_delete_fails :: env where
  "env_delete_fails = env_ok\<lparr>delete_err := (\<lambda>i. Some ''503 Service Unavailable'')\<rparr>"

definition new_report :: VisitReportModel where
  "new_report = zero_VisitReportModel\<lparr>m_Subject := ''Q1 review'', m_VisitDate := ''2021-01-15'',
                  m_Contact := zero_ContactDoc\<lparr>c_Id := ''c1'', c_Firstname := ''Ann''\<rparr>\<rparr>"

definition update_r1 :: VisitReportUpdateDoc where
  "update_r1 = \<lparr>u_Id = ''r1'', u_Subject = ''Q1 review'', u_Description = ''first visit'',
                u_Result = ''signed'', u_VisitDate = ''2020-10-01'', u_Contact = ann\<rparr>"

section \<open>Lemmas on the store and the fan-out\<close>

lemma m_Id_apply_contact [simp]: "m_Id (apply_contact C d) = m_Id d"
  by (simp add: apply_contact_def)

lemma contact_id_apply_contact [simp]:
  "c_Id (m_Contact (apply_contact C d)) = c_Id (m_Contact d)"
  by (simp add: apply_contact_def)

lemma apply_contact_idem [simp]: "apply_contact C (apply_contact C d) = apply_contact C d"
  by (simp add: apply_contact_def)

lemma id_fresh: "i \<notin> m_Id ` set xs \<Longrightarrow> y \<in> set xs \<Longrightarrow> m_Id y \<noteq> i"
  by blast

lemma same_id_same_doc:
  assumes "distinct (map m_Id coll)" "x \<in> set coll" "y \<in> set coll" "m_Id x = m_Id y"
  shows "x = y"
  using assms by (meson distinct_map inj_onD)

lemma has_doc_iff: "has_doc i coll \<longleftrightarrow> i \<in> m_Id ` set coll"
  by (auto simp: has_doc_def list_ex_iff)

lemma put_doc_map:
  "distinct (map m_Id coll) \<Longrightarrow> put_doc i d coll = map (\<lambda>x. if m_Id x = i then d else x) coll"
proof (induction coll)
  case Nil
  then show ?case by simp
next
  case (Cons x xs)
  show ?case
  proof (cases "m_Id x = i")
    case True
    from Cons.prems have "m_Id x \<notin> m_Id ` set xs" by simp
    with True have "\<forall>y\<in>set xs. m_Id y \<noteq> i" using id_fresh by metis
    then have "map (\<lambda>x. if m_Id x = i then d else x) xs = xs"
      by (simp add: map_idI)
    with True show ?thesis by simp
  next
    case False
    with Cons show ?thesis by simp
  qed
qed

lemma doc_at_map:
  assumes "distinct (map m_Id coll)" "R \<in> set coll" "\<And>x. m_Id (f x) = m_Id x"
  shows "doc_at (m_Id R) (map f coll) = Some (f R)"
  using assms(1,2)
proof (induction coll)
  case Nil
  then show ?case by simp
next
  case (Cons x xs)
  show ?case
  proof (cases "x = R")
    case True
    then show ?thesis by (simp add: doc_at_def assms(3))
  next
    case False
    with Cons.prems have Rin: "R \<in> set xs" by simp
    from Cons.prems have "m_Id x \<notin> m_Id ` set xs" by simp
    with Rin have "m_Id R \<noteq> m_Id x" using id_fresh by metis
    moreover have "doc_at (m_Id R) (map f xs) = Some (f R)"
      using Cons.IH Cons.prems Rin by simp
    ultimately show ?thesis by (simp add: doc_at_def assms(3))
  qed
qed

lemma updateInBg_store:
  assumes "distinct (map m_Id coll)"
  shows "fst (updateInBg ev v C coll) =
          map (\<lambda>x. if m_Id x = m_Id v \<and> replace_err ev (m_Id v) = None
                    then apply_contact C v else x) coll"
proof (cases "replace_err ev (m_Id v)")
  case None
  show ?thesis
  proof (cases "has_doc (m_Id v) coll")
    case True
    with None assms show ?thesis
      by (simp add: updateInBg_def ReplaceDocument_def put_doc_map Let_def)
  next
    case False
    then have "\<forall>x\<in>set coll. m_Id x \<noteq> m_Id v" using id_fresh by (metis has_doc_iff)
    then have "map (\<lambda>x. if m_Id x = m_Id v then apply_contact C v else x) coll = coll"
      by (simp add: map_idI)
    with None False show ?thesis
      by (simp add: updateInBg_def ReplaceDocument_def)
  qed
next
  case (Some e)
  then show ?thesis by (simp add: updateInBg_def ReplaceDocument_def)
qed

lemma updateInBg_trace:
  "snd (updateInBg ev v C coll) =
     DoReplace (m_Id v) (apply_contact C v)
       # log_err (snd (ReplaceDocument ev (m_Id v) (apply_contact C v) coll))"
  by (simp add: updateInBg_def Let_def split_beta)

lemma log_err_filters [simp]:
  "filter is_ack (log_err e) = []" "filter is_replace (log_err e) = []"
  "filter is_store_call (log_err e) = []" "filter is_send (log_err e) = []"
  by (cases e; simp add: log_err_def)+

lemma fan_out_step:
  "fan_out ev (v # vs) C coll =
     (fst (fan_out ev vs C (fst (updateInBg ev v C coll))),
      snd (updateInBg ev v C coll) @ snd (fan_out ev vs C (fst (updateInBg ev v C coll))))"
  by (simp add: split_beta Let_def)

lemma fan_out_no_ack: "filter is_ack (snd (fan_out ev docs C coll)) = []"
proof (induction docs arbitrary: coll)
  case Nil
  then show ?case by simp
next
  case (Cons v vs)
  then show ?case by (simp only: fan_out_step snd_conv filter_append updateInBg_trace) simp
qed

lemma fan_out_replaces:
  "filter is_replace (snd (fan_out ev docs C coll)) =
     map (\<lambda>v. DoReplace (m_Id v) (apply_contact C v)) docs"
proof (induction docs arbitrary: coll)
  case Nil
  then show ?case by simp
next
  case (Cons v vs)
  then show ?case by (simp only: fan_out_step snd_conv filter_append updateInBg_trace) simp
qed

lemma fan_out_store:
  assumes "distinct (map m_Id coll)" "distinct (map m_Id docs)" "set docs \<subseteq> set coll"
  shows "fst (fan_out ev docs C coll) =
           map (\<lambda>x. if m_Id x \<in> m_Id ` set docs \<and> replace_err ev (m_Id x) = None
                     then apply_contact C x else x) coll"
  using assms
proof (induction docs arbitrary: coll)
  case Nil
  then show ?case by simp
next
  case (Cons v vs)
  let ?f = "\<lambda>x. if m_Id x = m_Id v \<and> replace_err ev (m_Id v) = None then apply_contact C x else x"
  let ?coll1 = "map ?f coll"
  have v_in: "v \<in> set coll" using Cons.prems by simp
  have same: "\<And>x. x \<in> set coll \<Longrightarrow> m_Id x = m_Id v \<Longrightarrow> x = v"
    by (rule same_id_same_doc [OF Cons.prems(1) _ v_in])
  have c1: "fst (updateInBg ev v C coll) = ?coll1"
    unfolding updateInBg_store [OF Cons.prems(1)]
    by (rule map_cong) (auto dest: same)
  have ids1: "map m_Id ?coll1 = map m_Id coll" by (simp add: comp_def)
  have d1: "distinct (map m_Id ?coll1)" using Cons.prems(1) by (simp only: ids1)
  have dvs: "distinct (map m_Id vs)" using Cons.prems(2) by simp
  have fresh: "m_Id v \<notin> m_Id ` set vs" using Cons.prems(2) by simp
  have sub: "set vs \<subseteq> set ?coll1"
  proof
    fix w assume w: "w \<in> set vs"
    with fresh have "m_Id w \<noteq> m_Id v" using id_fresh by metis
    then have fw: "?f w = w" by simp
    have win: "w \<in> set coll" using w Cons.prems(3) by auto
    from win have "?f w \<in> ?f ` set coll" by (rule imageI)
    then have "w \<in> ?f ` set coll" by (simp only: fw)
    then show "w \<in> set ?coll1" by (simp only: set_map)
  qed
  have "fst (fan_out ev (v # vs) C coll) = fst (fan_out ev vs C (fst (updateInBg ev v C coll)))"
    by (simp only: fan_out_step fst_conv)
  also have "\<dots> = map (\<lambda>x. if m_Id x \<in> m_Id ` set vs \<and> replace_err ev (m_Id x) = None
                     then apply_contact C x else x) ?coll1"
    unfolding c1 by (rule Cons.IH [OF d1 dvs sub])
  also have "\<dots> = map (\<lambda>x. if m_Id x \<in> m_Id ` set (v # vs) \<and> replace_err ev (m_Id x) = None
                     then apply_contact C x else x) coll"
    using fresh by auto
  finally show ?case .
qed

lemma listen_handler_store:
  assumes "distinct (map m_Id coll)"
  shows "fst (listen_handler ev m coll) =
           map (\<lambda>x. if touched ev (fst (Unmarshal ev (Data m))) x
                     then apply_contact (fst (Unmarshal ev (Data m))) x else x) coll"
proof (cases "query_err ev")
  case (Some e)
  then show ?thesis
    by (simp add: listen_handler_def QueryDocuments_def split_beta Let_def touched_def)
next
  case None
  let ?C = "fst (Unmarshal ev (Data m))"
  let ?docs = "filter (\<lambda>d. c_Id (m_Contact d) = c_Id ?C) coll"
  have d: "distinct (map m_Id ?docs)" using assms by (rule distinct_map_filter)
  have s: "set ?docs \<subseteq> set coll" by simp
  have match: "m_Id x \<in> m_Id ` set ?docs \<longleftrightarrow> c_Id (m_Contact x) = c_Id ?C" if "x \<in> set coll" for x
  proof
    assume "m_Id x \<in> m_Id ` set ?docs"
    then obtain y where y: "y \<in> set ?docs" "m_Id x = m_Id y" by blast
    then have yin: "y \<in> set coll" by simp
    have "x = y" by (rule same_id_same_doc [OF assms that yin y(2)])
    with y(1) show "c_Id (m_Contact x) = c_Id ?C" by simp
  next
    assume "c_Id (m_Contact x) = c_Id ?C"
    with that have "x \<in> set ?docs" by simp
    then show "m_Id x \<in> m_Id ` set ?docs" by (rule imageI)
  qed
  have "fst (listen_handler ev m coll) = fst (fan_out ev ?docs ?C coll)"
    using None by (simp add: listen_handler_def QueryDocuments_def split_beta Let_def)
  also have "\<dots> = map (\<lambda>x. if m_Id x \<in> m_Id ` set ?docs \<and> replace_err ev (m_Id x) = None
                     then apply_contact ?C x else x) coll"
    by (rule fan_out_store [OF assms d s])
  also have "\<dots> = map (\<lambda>x. if touched ev ?C x then apply_contact ?C x else x) coll"
  proof (rule map_cong [OF refl])
    fix x assume xin: "x \<in> set coll"
    have m': "(m_Id x \<in> m_Id ` set ?docs \<and> replace_err ev (m_Id x) = None) = touched ev ?C x"
      unfolding touched_def match [OF xin] using None by simp
    show "(if m_Id x \<in> m_Id ` set ?docs \<and> replace_err ev (m_Id x) = None
           then apply_contact ?C x else x) = (if touched ev ?C x then apply_contact ?C x else x)"
      by (simp only: m')
  qed
  finally show ?thesis .
qed

lemma listen_handler_trace:
  "fst (snd (listen_handler ev m coll)) =
     (case snd (Unmarshal ev (Data m)) of None \<Rightarrow> [] | Some e \<Rightarrow> [DoAbandon, Print e, Print e])
     @ DoQuery (c_Id (fst (Unmarshal ev (Data m))))
     # log_err (query_err ev)
     @ snd (fan_out ev (fst (QueryDocuments ev (c_Id (fst (Unmarshal ev (Data m)))) coll))
              (fst (Unmarshal ev (Data m))) coll)
     @ [DoComplete]"
  by (cases "query_err ev") (simp_all add: listen_handler_def QueryDocuments_def split_beta Let_def log_err_def)

lemma listen_handler_keeps_ids:
  assumes "distinct (map m_Id coll)"
  shows "map m_Id (fst (listen_handler ev m coll)) = map m_Id coll"
  unfolding listen_handler_store [OF assms] by (simp add: comp_def)

lemma replay_changes_nothing:
  assumes d: "distinct (map m_Id coll)"
    and same: "Unmarshal ev2 (Data m) = Unmarshal ev1 (Data m)"
    and q: "query_err ev2 = None \<Longrightarrow> query_err ev1 = None"
    and r: "\<And>i. replace_err ev2 i = None \<Longrightarrow> replace_err ev1 i = None"
  shows "fst (listen_handler ev2 m (fst (listen_handler ev1 m coll))) = fst (listen_handler ev1 m coll)"
proof -
  let ?C = "fst (Unmarshal ev1 (Data m))"
  let ?s1 = "fst (listen_handler ev1 m coll)"
  have d1: "distinct (map m_Id ?s1)"
    using d by (simp only: listen_handler_keeps_ids [OF d])
  have t: "touched ev1 ?C x" if "touched ev2 ?C x" for x
    using that q r by (simp add: touched_def)
  have "fst (listen_handler ev2 m ?s1) =
          map (\<lambda>x. if touched ev2 ?C x then apply_contact ?C x else x) ?s1"
    unfolding listen_handler_store [OF d1] same ..
  also have "\<dots> = ?s1"
  proof (rule map_idI)
    fix y assume "y \<in> set ?s1"
    then have "y \<in> (\<lambda>x. if touched ev1 ?C x then apply_contact ?C x else x) ` set coll"
      unfolding listen_handler_store [OF d] set_map .
    then obtain x where y: "y = (if touched ev1 ?C x then apply_contact ?C x else x)"
      by blast
    show "(if touched ev2 ?C y then apply_contact ?C y else y) = y"
    proof (cases "touched ev1 ?C x")
      case True
      with y show ?thesis by simp
    next
      case False
      with t have "\<not> touched ev2 ?C x" by blast
      with False y show ?thesis by simp
    qed
  qed
  finally show ?thesis .
qed

text \<open>
  The collection after a fan-out depends on which reports are handed to it, not on the
  order in which their replaces run: any order of the goroutines ends in the same store.
\<close>

lemma fan_out_order_irrelevant:
  assumes "distinct (map m_Id coll)" "distinct (map m_Id docs)" "set docs \<subseteq> set coll"
    and "distinct (map m_Id docs')" "set docs' = set docs"
  shows "fst (fan_out ev docs' C coll) = fst (fan_out ev docs C coll)"
proof -
  have sub': "set docs' \<subseteq> set coll" using assms(3,5) by simp
  show ?thesis
    unfolding fan_out_store [OF assms(1,2,3)] fan_out_store [OF assms(1,4) sub']
    by (simp only: assms(5))
qed

text \<open>
  Whatever the payload, a decoding error leads to both settling calls, with the store
  query in between; and whenever \<^verbatim>\<open>update\<close> answers 200, the body it sends is the zero
  \<^verbatim>\<open>VisitReportReadDoc\<close>.
\<close>

lemma decode_error_is_abandoned_and_completed:
  assumes "snd (Unmarshal ev (Data m)) = Some e"
  shows "filter is_ack (fst (snd (listen_handler ev m coll))) = [DoAbandon, DoComplete]"
    and "DoQuery (c_Id (fst (Unmarshal ev (Data m)))) \<in> set (fst (snd (listen_handler ev m coll)))"
  unfolding listen_handler_trace using assms by (simp_all add: fan_out_no_ack)

lemma update_body_is_zero:
  assumes "JSON 200 b \<in> set (snd (snd (update ev i bound coll)))"
  shows "b = ReadDocBody zero_VisitReportReadDoc"
  using assms
  by (auto simp: update_def Let_def split_beta split: sum.splits option.splits prod.splits)

text \<open>
  Two handlings of one message, the collaborators answering the second time as they
  please: a report is overwritten when it was overwritten in either handling. With the
  same answers both times the second handling changes nothing.
\<close>

lemma touched_apply_contact [simp]: "touched ev C (apply_contact C' x) = touched ev C x"
  by (simp add: touched_def)


lemma fan_out_replace_count:
  "length (filter is_replace (snd (fan_out ev docs C coll))) = length docs"
  by (simp add: fan_out_replaces)

lemma same_set_same_length:
  assumes "distinct (map m_Id xs)" "distinct (map m_Id ys)" "set xs = set ys"
  shows "length xs = length ys"
proof -
  from assms(1) have "distinct xs" by (simp add: distinct_map)
  moreover from assms(2) have "distinct ys" by (simp add: distinct_map)
  ultimately show ?thesis using assms(3) by (metis distinct_card)
qed

lemma replay_same_answers:
  assumes "distinct (map m_Id coll)"
  shows "fst (listen_handler ev m (fst (listen_handler ev m coll))) = fst (listen_handler ev m coll)"
  using assms by (rule replay_changes_nothing) simp_all

text \<open>
  With the query succeeding, the collection after the handler is the one after the
  fan-out over the matched reports, and the replace calls of the run are one for each
  matched report.
\<close>

lemma listen_handler_fan_out:
  assumes "query_err ev = None"
  shows "fst (listen_handler ev m coll) =
           fst (fan_out ev (filter (\<lambda>d. c_Id (m_Contact d) = c_Id (fst (Unmarshal ev (Data m)))) coll)
                  (fst (Unmarshal ev (Data m))) coll)"
  using assms by (simp add: listen_handler_def QueryDocuments_def split_beta Let_def)

lemma listen_handler_replaces:
  assumes "query_err ev = None"
  shows "filter is_replace (fst (snd (listen_handler ev m coll))) =
           map (\<lambda>v. DoReplace (m_Id v) (apply_contact (fst (Unmarshal ev (Data m))) v))
             (filter (\<lambda>d. c_Id (m_Contact d) = c_Id (fst (Unmarshal ev (Data m)))) coll)"
  unfolding listen_handler_trace
  using assms by (cases "snd (Unmarshal ev (Data m))")
    (simp_all add: fan_out_replaces QueryDocuments_def)

lemma replace_in_trace:
  assumes "filter is_replace tr = map (\<lambda>v. DoReplace (m_Id v) (apply_contact C v)) docs"
    and "v \<in> set docs"
  shows "DoReplace (m_Id v) (apply_contact C v) \<in> set tr"
proof -
  from assms(2) have "DoReplace (m_Id v) (apply_contact C v)
                        \<in> set (map (\<lambda>v. DoReplace (m_Id v) (apply_contact C v)) docs)"
    by simp
  then have "DoReplace (m_Id v) (apply_contact C v) \<in> set (filter is_replace tr)"
    by (simp only: assms(1))
  then show ?thesis by simp
qed

text \<open>The definitions a concrete run unfolds, and those of the concrete inputs.\<close>

lemmas run_defs =
  listen_handler_def QueryDocuments_def updateInBg_def ReplaceDocument_def has_doc_def
  apply_contact_def doc_at_def log_err_def Let_def split_beta
  GetDocument_def CreateDocument_def DeleteDocument_def
  create_def update_def delete_def
  Copy_ReadDoc_from_Model_def Copy_Model_from_UpdateDoc_def Copy_Model_from_ReadDoc_def
  zero_ContactDoc_def zero_VisitReportModel_def zero_VisitReportReadDoc_def
  zero_VisitReportEventDoc_def

lemmas fixture_defs =
  ann_def anna_def bob_def report1_def report2_def report3_def store0_def
  msg_anna_def msg_mistyped_def msg_garbage_def json_Unmarshal_def json_Marshal_def
  env_ok_def env_replace_fails_def env_query_fails_def env_send_fails_def
  env_delete_fails_def new_report_def update_r1_def

lemma filter_length_mono:
  "(\<And>x. x \<in> set xs \<Longrightarrow> P x \<Longrightarrow> Q x) \<Longrightarrow> length (filter P xs) \<le> length (filter Q xs)"
  by (induction xs) auto

section \<open>The listener: propagation of a contact change\<close>

text \<open>
  C1, as stated, does not hold. The claim reads: for every processed notification for a
  contact C and every stored report R whose embedded contact id is C's, after the
  fan-out the stored snapshot of R has C's firstname, lastname, avatarLocation and
  company. Here the notification for \<^verbatim>\<open>c1\<close> decodes, report \<^verbatim>\<open>r1\<close> embeds \<^verbatim>\<open>c1\<close>, and the
  replace of \<^verbatim>\<open>r1\<close> fails: \<^verbatim>\<open>updateInBg\<close> prints the error and returns, and the stored
  \<^verbatim>\<open>r1\<close> still carries the old firstname.
\<close>

theorem snapshot_stale_after_failed_replace:
  "Unmarshal (env_replace_fails ''r1'') (Data msg_anna) = (anna, None)
   \<and> report1 \<in> set store0
   \<and> c_Id (m_Contact report1) = c_Id anna
   \<and> doc_at (m_Id report1) (fst (listen_handler (env_replace_fails ''r1'') msg_anna store0))
       = Some report1
   \<and> c_Firstname (m_Contact report1) \<noteq> c_Firstname anna"
  by (simp add: run_defs fixture_defs)

text \<open>
  C1, amended: for every notification that decodes to a contact C and every stored
  report R whose embedded contact id is C's, if the store query and the replace of R
  succeed, then after the handler the document stored under R's id has C's firstname,
  lastname, avatarLocation and company, has the type \<^verbatim>\<open>visitreport\<close>, has R's id and R's
  embedded contact id, and differs from R in nothing but the embedded contact and the
  type. If the query or the replace of R fails, the document stored under R's id is R
  as it was. Document ids are unique in the collection.
\<close>

theorem snapshot_propagated_where_replaced:
  assumes "distinct (map m_Id coll)"
    and "Unmarshal ev (Data m) = (C, None)"
    and "R \<in> set coll"
    and "c_Id (m_Contact R) = c_Id C"
  shows "(query_err ev = None \<and> replace_err ev (m_Id R) = None \<longrightarrow>
            (\<exists>R'. doc_at (m_Id R) (fst (listen_handler ev m coll)) = Some R'
                \<and> c_Firstname (m_Contact R') = c_Firstname C
                \<and> c_Lastname (m_Contact R') = c_Lastname C
                \<and> c_AvatarLocation (m_Contact R') = c_AvatarLocation C
                \<and> c_Company (m_Contact R') = c_Company C
                \<and> m_Type R' = ''visitreport''
                \<and> m_Id R' = m_Id R
                \<and> c_Id (m_Contact R') = c_Id (m_Contact R)
                \<and> R' = R\<lparr>m_Contact := m_Contact R', m_Type := m_Type R'\<rparr>))
       \<and> (query_err ev \<noteq> None \<or> replace_err ev (m_Id R) \<noteq> None \<longrightarrow>
            doc_at (m_Id R) (fst (listen_handler ev m coll)) = Some R)"
proof -
  let ?f = "\<lambda>x. if touched ev C x then apply_contact C x else x"
  have C: "fst (Unmarshal ev (Data m)) = C" using assms(2) by simp
  have keep: "\<And>x. m_Id (?f x) = m_Id x" by simp
  have at: "doc_at (m_Id R) (fst (listen_handler ev m coll)) = Some (?f R)"
    unfolding listen_handler_store [OF assms(1)] C
    by (rule doc_at_map [OF assms(1) assms(3) keep])
  show ?thesis
    unfolding at using assms(4) by (auto simp: touched_def apply_contact_def)
qed

text \<open>
  An instance of the amended C1: with the replace of \<^verbatim>\<open>r1\<close> failing, \<^verbatim>\<open>r2\<close> (same contact,
  replace succeeding) ends with the new snapshot.
\<close>

theorem snapshot_propagated_where_replaced_witness:
  "distinct (map m_Id store0)
   \<and> Unmarshal (env_replace_fails ''r1'') (Data msg_anna) = (anna, None)
   \<and> report2 \<in> set store0 \<and> c_Id (m_Contact report2) = c_Id anna
   \<and> query_err (env_replace_fails ''r1'') = None
   \<and> replace_err (env_replace_fails ''r1'') (m_Id report2) = None
   \<and> doc_at ''r2'' (fst (listen_handler (env_replace_fails ''r1'') msg_anna store0))
       = Some (report2\<lparr>m_Contact := anna\<rparr>)"
proof -
  have h1: "distinct (map m_Id store0)" by (simp add: fixture_defs)
  have h2: "Unmarshal (env_replace_fails ''r1'') (Data msg_anna) = (anna, None)"
    by (simp add: fixture_defs)
  have h3: "report2 \<in> set store0" by (simp add: fixture_defs)
  have h4: "c_Id (m_Contact report2) = c_Id anna" by (simp add: fixture_defs)
  have h5: "query_err (env_replace_fails ''r1'') = None" by (simp add: fixture_defs)
  have h6: "replace_err (env_replace_fails ''r1'') (m_Id report2) = None" by (simp add: fixture_defs)
  from snapshot_propagated_where_replaced [OF h1 h2 h3 h4] h5 h6
  obtain R' where R': "doc_at (m_Id report2) (fst (listen_handler (env_replace_fails ''r1'') msg_anna store0)) = Some R'"
      "c_Firstname (m_Contact R') = c_Firstname anna"
      "c_Lastname (m_Contact R') = c_Lastname anna"
      "c_AvatarLocation (m_Contact R') = c_AvatarLocation anna"
      "c_Company (m_Contact R') = c_Company anna"
      "c_Id (m_Contact R') = c_Id (m_Contact report2)"
      "R' = report2\<lparr>m_Contact := m_Contact R', m_Type := m_Type R'\<rparr>"
      "m_Type R' = ''visitreport''"
    by blast
  have "m_Contact R' = anna"
    using R'(2-6) h4 by (cases "m_Contact R'") (simp add: anna_def)
  with R'(7,8) have "R' = report2\<lparr>m_Contact := anna\<rparr>"
    by (cases R') (simp add: report2_def)
  with R'(1) h1 h2 h3 h4 h5 h6 show ?thesis by (simp add: report2_def)
qed

text \<open>
  C2, evaluated on the code: the claim says that a payload which fails to decode is
  abandoned and nothing else happens (no store query, no report modified, no complete).
  On the payload \<^verbatim>\<open>{"id":"c1","firstname":5}\<close> decoding fails; the handler abandons the
  message, then queries the store for contact \<^verbatim>\<open>c1\<close>, replaces both reports of \<^verbatim>\<open>c1\<close>
  with a snapshot whose descriptive fields are empty, and completes the message.
\<close>

theorem undecodable_payload_is_processed:
  "snd (Unmarshal env_ok (Data msg_mistyped)) \<noteq> None
   \<and> filter is_ack (fst (snd (listen_handler env_ok msg_mistyped store0))) = [DoAbandon, DoComplete]
   \<and> filter is_store_call (fst (snd (listen_handler env_ok msg_mistyped store0)))
       = [DoQuery ''c1'',
          DoReplace ''r1'' (report1\<lparr>m_Contact := zero_ContactDoc\<lparr>c_Id := ''c1''\<rparr>\<rparr>),
          DoReplace ''r2'' (report2\<lparr>m_Contact := zero_ContactDoc\<lparr>c_Id := ''c1''\<rparr>\<rparr>)]
   \<and> fst (listen_handler env_ok msg_mistyped store0)
       = [report1\<lparr>m_Contact := zero_ContactDoc\<lparr>c_Id := ''c1''\<rparr>\<rparr>, report3,
          report2\<lparr>m_Contact := zero_ContactDoc\<lparr>c_Id := ''c1''\<rparr>\<rparr>]"
  by (simp add: run_defs fixture_defs)

text \<open>
  C3: when the payload decodes, the handler makes exactly one settling call on the
  message, \<^verbatim>\<open>Complete\<close>, as its last call, whatever the replaces of the fan-out answered,
  and returns what \<^verbatim>\<open>Complete\<close> returned. When the store query fails, the run is the
  query, the printed error and \<^verbatim>\<open>Complete\<close>; the message is not abandoned and the
  collection is as before.
\<close>

theorem decoded_message_is_completed:
  assumes "Unmarshal ev (Data m) = (C, None)"
  shows "filter is_ack (fst (snd (listen_handler ev m coll))) = [DoComplete]
       \<and> last (fst (snd (listen_handler ev m coll))) = DoComplete
       \<and> snd (snd (listen_handler ev m coll)) = complete_err ev
       \<and> (\<forall>e. query_err ev = Some e \<longrightarrow>
             fst (snd (listen_handler ev m coll)) = [DoQuery (c_Id C), Print e, DoComplete]
             \<and> fst (listen_handler ev m coll) = coll)"
proof -
  have ack: "filter is_ack (fst (snd (listen_handler ev m coll))) = [DoComplete]"
    unfolding listen_handler_trace using assms by (simp add: fan_out_no_ack)
  have lst: "last (fst (snd (listen_handler ev m coll))) = DoComplete"
    unfolding listen_handler_trace by simp
  have ret: "snd (snd (listen_handler ev m coll)) = complete_err ev"
    by (simp add: listen_handler_def split_beta Let_def)
  have qf: "fst (snd (listen_handler ev m coll)) = [DoQuery (c_Id C), Print e, DoComplete]
            \<and> fst (listen_handler ev m coll) = coll" if "query_err ev = Some e" for e
    using that assms by (simp add: listen_handler_def QueryDocuments_def split_beta Let_def log_err_def)
  from ack lst ret qf show ?thesis by blast
qed

text \<open>
  Instances of C3: a decoded notification with a failing query, and one with a query
  that succeeds and a replace that fails.
\<close>

theorem decoded_message_is_completed_witness:
  "Unmarshal env_query_fails (Data msg_anna) = (anna, None)
   \<and> query_err env_query_fails = Some ''408 Request Timeout''
   \<and> fst (snd (listen_handler env_query_fails msg_anna store0))
       = [DoQuery ''c1'', Print ''408 Request Timeout'', DoComplete]
   \<and> Unmarshal (env_replace_fails ''r1'') (Data msg_anna) = (anna, None)
   \<and> filter is_ack (fst (snd (listen_handler (env_replace_fails ''r1'') msg_anna store0)))
       = [DoComplete]"
proof -
  have h: "Unmarshal env_query_fails (Data msg_anna) = (anna, None)"
    by (simp add: fixture_defs)
  have h': "Unmarshal (env_replace_fails ''r1'') (Data msg_anna) = (anna, None)"
    by (simp add: fixture_defs)
  have q: "query_err env_query_fails = Some ''408 Request Timeout''"
    by (simp add: fixture_defs)
  from decoded_message_is_completed [OF h, of store0]
       decoded_message_is_completed [OF h', of store0] h h' q
  show ?thesis by (simp add: anna_def)
qed

text \<open>
  C4, evaluated on the code: the claim says that no handler invocation calls both
  \<^verbatim>\<open>Complete\<close> and \<^verbatim>\<open>Abandon\<close> on its message. On a payload that is no JSON the handler
  calls \<^verbatim>\<open>Abandon\<close>, prints the error twice, queries the store with the empty contact id
  and calls \<^verbatim>\<open>Complete\<close> on the same message.
\<close>

theorem abandoned_message_is_also_completed:
  "snd (Unmarshal env_ok (Data msg_garbage)) = Some ''invalid character 'o' in literal null (expecting 'u')''
   \<and> fst (snd (listen_handler env_ok msg_garbage store0))
       = [DoAbandon, Print ''invalid character 'o' in literal null (expecting 'u')'', Print ''invalid character 'o' in literal null (expecting 'u')'',
          DoQuery [], DoComplete]"
  by (simp add: run_defs fixture_defs)




text \<open>
  C7: let the query succeed and return the N reports \<open>docs\<close> of the notification's
  contact C, in a collection with unique ids. Then the run of the handler has N replace
  calls, one for each matched report, each carrying the report with C's firstname,
  lastname, avatarLocation and company and the type \<^verbatim>\<open>visitreport\<close>, whichever of the
  calls fail. Every matched report whose own replace succeeds is stored in that state,
  whatever happened to the others; if exactly one replace fails, each of the other N - 1
  reports is stored in that state; in general the reports stored in that state and the
  failed replaces together number at least N. None of this depends on the order in which
  the goroutines reach the store: for every order \<open>run\<close> of the matched reports the
  fan-out ends in the same collection and has made the same N replace calls.
\<close>

theorem fan_out_failures_are_isolated:
  assumes "distinct (map m_Id coll)"
    and "query_err ev = None"
    and "C = fst (Unmarshal ev (Data m))"
    and "docs = filter (\<lambda>d. c_Id (m_Contact d) = c_Id C) coll"
  shows "length (filter is_replace (fst (snd (listen_handler ev m coll)))) = length docs
       \<and> (\<forall>v\<in>set docs.
             DoReplace (m_Id v)
               (v\<lparr>m_Contact := (m_Contact v)\<lparr>c_Firstname := c_Firstname C,
                                                c_Lastname := c_Lastname C,
                                                c_AvatarLocation := c_AvatarLocation C,
                                                c_Company := c_Company C\<rparr>,
                  m_Type := ''visitreport''\<rparr>)
               \<in> set (fst (snd (listen_handler ev m coll))))
       \<and> (\<forall>v\<in>set docs. replace_err ev (m_Id v) = None \<longrightarrow>
             doc_at (m_Id v) (fst (listen_handler ev m coll))
               = Some (v\<lparr>m_Contact := (m_Contact v)\<lparr>c_Firstname := c_Firstname C,
                                                      c_Lastname := c_Lastname C,
                                                      c_AvatarLocation := c_AvatarLocation C,
                                                      c_Company := c_Company C\<rparr>,
                         m_Type := ''visitreport''\<rparr>))
       \<and> (\<forall>f\<in>set docs.
             (\<forall>v\<in>set docs. (replace_err ev (m_Id v) \<noteq> None) = (v = f)) \<longrightarrow>
             (\<forall>v\<in>set docs. v \<noteq> f \<longrightarrow>
                doc_at (m_Id v) (fst (listen_handler ev m coll))
                  = Some (v\<lparr>m_Contact := (m_Contact v)\<lparr>c_Firstname := c_Firstname C,
                                                         c_Lastname := c_Lastname C,
                                                         c_AvatarLocation := c_AvatarLocation C,
                                                         c_Company := c_Company C\<rparr>,
                            m_Type := ''visitreport''\<rparr>)))
       \<and> length docs \<le>
           length (filter (\<lambda>v. doc_at (m_Id v) (fst (listen_handler ev m coll))
                     = Some (v\<lparr>m_Contact := (m_Contact v)\<lparr>c_Firstname := c_Firstname C,
                                                            c_Lastname := c_Lastname C,
                                                            c_AvatarLocation := c_AvatarLocation C,
                                                            c_Company := c_Company C\<rparr>,
                               m_Type := ''visitreport''\<rparr>)) docs)
           + length (filter (\<lambda>v. replace_err ev (m_Id v) \<noteq> None) docs)
       \<and> (\<forall>run. set run = set docs \<and> distinct (map m_Id run) \<longrightarrow>
             fst (fan_out ev run C coll) = fst (listen_handler ev m coll)
             \<and> length (filter is_replace (snd (fan_out ev run C coll))) = length docs
             \<and> (\<forall>v\<in>set docs.
                   DoReplace (m_Id v)
                     (v\<lparr>m_Contact := (m_Contact v)\<lparr>c_Firstname := c_Firstname C,
                                                      c_Lastname := c_Lastname C,
                                                      c_AvatarLocation := c_AvatarLocation C,
                                                      c_Company := c_Company C\<rparr>,
                        m_Type := ''visitreport''\<rparr>)
                     \<in> set (snd (fan_out ev run C coll))))"
proof -
  let ?f = "\<lambda>x. if touched ev C x then apply_contact C x else x"
  let ?coll' = "fst (listen_handler ev m coll)"
  let ?tr = "fst (snd (listen_handler ev m coll))"
  have new: "\<And>v. v\<lparr>m_Contact := (m_Contact v)\<lparr>c_Firstname := c_Firstname C,
                                                 c_Lastname := c_Lastname C,
                                                 c_AvatarLocation := c_AvatarLocation C,
                                                 c_Company := c_Company C\<rparr>,
                     m_Type := ''visitreport''\<rparr> = apply_contact C v"
    by (simp add: apply_contact_def)
  have keep: "\<And>x. m_Id (?f x) = m_Id x" by simp
  have ddocs: "distinct (map m_Id docs)"
    unfolding assms(4) using assms(1) by (rule distinct_map_filter)
  have sub: "set docs \<subseteq> set coll" unfolding assms(4) by simp
  have attempts: "filter is_replace ?tr = map (\<lambda>v. DoReplace (m_Id v) (apply_contact C v)) docs"
    unfolding assms(3,4) by (rule listen_handler_replaces [OF assms(2)])
  have count: "length (filter is_replace ?tr) = length docs"
    unfolding attempts by simp
  have made: "DoReplace (m_Id v) (apply_contact C v) \<in> set ?tr" if "v \<in> set docs" for v
    using attempts that by (rule replace_in_trace)
  have reach: "doc_at (m_Id v) ?coll' = Some (apply_contact C v)"
    if "v \<in> set docs" "replace_err ev (m_Id v) = None" for v
  proof -
    from that(1) assms(4) have vin: "v \<in> set coll" and vc: "c_Id (m_Contact v) = c_Id C"
      by simp_all
    have "doc_at (m_Id v) ?coll' = Some (?f v)"
      unfolding listen_handler_store [OF assms(1)] assms(3) [symmetric]
      by (rule doc_at_map [OF assms(1) vin keep])
    with vc that(2) assms(2) show ?thesis by (simp add: touched_def)
  qed
  have one: "doc_at (m_Id v) ?coll' = Some (apply_contact C v)"
    if "f \<in> set docs" "\<forall>v\<in>set docs. (replace_err ev (m_Id v) \<noteq> None) = (v = f)"
       "v \<in> set docs" "v \<noteq> f" for f v
  proof -
    from that(2,3) have "(replace_err ev (m_Id v) \<noteq> None) = (v = f)" by (rule bspec)
    with that(4) have "replace_err ev (m_Id v) = None" by simp
    with that(3) show ?thesis by (rule reach)
  qed
  have "length docs = length (filter (\<lambda>v. replace_err ev (m_Id v) = None) docs)
                     + length (filter (\<lambda>v. replace_err ev (m_Id v) \<noteq> None) docs)"
    by (simp only: sum_length_filter_compl)
  moreover have "length (filter (\<lambda>v. replace_err ev (m_Id v) = None) docs)
         \<le> length (filter (\<lambda>v. doc_at (m_Id v) ?coll' = Some (apply_contact C v)) docs)"
    by (rule filter_length_mono) (rule reach)
  ultimately have bound: "length docs \<le>
           length (filter (\<lambda>v. doc_at (m_Id v) ?coll' = Some (apply_contact C v)) docs)
           + length (filter (\<lambda>v. replace_err ev (m_Id v) \<noteq> None) docs)"
    by linarith
  have any: "fst (fan_out ev run C coll) = ?coll'
             \<and> length (filter is_replace (snd (fan_out ev run C coll))) = length docs
             \<and> (\<forall>v\<in>set docs. DoReplace (m_Id v) (apply_contact C v)
                                 \<in> set (snd (fan_out ev run C coll)))"
    if "set run = set docs \<and> distinct (map m_Id run)" for run
  proof -
    from that have sr: "set run = set docs" and dr: "distinct (map m_Id run)" by simp_all
    have "fst (fan_out ev run C coll) = fst (fan_out ev docs C coll)"
      by (rule fan_out_order_irrelevant [OF assms(1) ddocs sub dr sr])
    also have "\<dots> = ?coll'"
      unfolding assms(3,4) by (rule listen_handler_fan_out [OF assms(2), symmetric])
    finally have st: "fst (fan_out ev run C coll) = ?coll'" .
    have len: "length run = length docs"
      by (rule same_set_same_length [OF dr ddocs sr])
    have cnt: "length (filter is_replace (snd (fan_out ev run C coll))) = length docs"
      by (simp add: fan_out_replaces len)
    have mem: "DoReplace (m_Id v) (apply_contact C v) \<in> set (snd (fan_out ev run C coll))"
      if "v \<in> set docs" for v
    proof (rule replace_in_trace)
      show "filter is_replace (snd (fan_out ev run C coll))
              = map (\<lambda>v. DoReplace (m_Id v) (apply_contact C v)) run"
        by (rule fan_out_replaces)
      show "v \<in> set run" using that sr by simp
    qed
    from st cnt mem show ?thesis by blast
  qed
  show ?thesis
    unfolding new
  proof (intro conjI ballI impI allI)
    show "length (filter is_replace ?tr) = length docs" by (rule count)
  next
    fix v assume "v \<in> set docs"
    then show "DoReplace (m_Id v) (apply_contact C v) \<in> set ?tr" by (rule made)
  next
    fix v assume "v \<in> set docs" "replace_err ev (m_Id v) = None"
    then show "doc_at (m_Id v) ?coll' = Some (apply_contact C v)" by (rule reach)
  next
    fix f v
    assume "f \<in> set docs" "\<forall>v\<in>set docs. (replace_err ev (m_Id v) \<noteq> None) = (v = f)"
           "v \<in> set docs" "v \<noteq> f"
    then show "doc_at (m_Id v) ?coll' = Some (apply_contact C v)" by (rule one)
  next
    show "length docs \<le>
           length (filter (\<lambda>v. doc_at (m_Id v) ?coll' = Some (apply_contact C v)) docs)
           + length (filter (\<lambda>v. replace_err ev (m_Id v) \<noteq> None) docs)"
      by (rule bound)
  next
    fix run assume "set run = set docs \<and> distinct (map m_Id run)"
    from any [OF this] show "fst (fan_out ev run C coll) = ?coll'" by (rule conjunct1)
  next
    fix run assume "set run = set docs \<and> distinct (map m_Id run)"
    from any [OF this]
    show "length (filter is_replace (snd (fan_out ev run C coll))) = length docs" by simp
  next
    fix run v assume "set run = set docs \<and> distinct (map m_Id run)" "v \<in> set docs"
    from any [OF this(1)] this(2)
    show "DoReplace (m_Id v) (apply_contact C v) \<in> set (snd (fan_out ev run C coll))" by simp
  qed
qed

text \<open>
  An instance of C7: two matched reports, exactly the replace of \<^verbatim>\<open>r1\<close> fails; both
  replaces are made, \<^verbatim>\<open>r2\<close> is stored with the new snapshot, and the fan-out run in the
  other order ends in the same collection.
\<close>

theorem fan_out_failures_are_isolated_witness:
  "distinct (map m_Id store0)
   \<and> query_err (env_replace_fails ''r1'') = None
   \<and> fst (Unmarshal (env_replace_fails ''r1'') (Data msg_anna)) = anna
   \<and> filter (\<lambda>d. c_Id (m_Contact d) = c_Id anna) store0 = [report1, report2]
   \<and> replace_err (env_replace_fails ''r1'') (m_Id report1) \<noteq> None
   \<and> replace_err (env_replace_fails ''r1'') (m_Id report2) = None
   \<and> length (filter is_replace
               (fst (snd (listen_handler (env_replace_fails ''r1'') msg_anna store0)))) = 2
   \<and> DoReplace ''r1'' (report1\<lparr>m_Contact := anna\<rparr>)
       \<in> set (fst (snd (listen_handler (env_replace_fails ''r1'') msg_anna store0)))
   \<and> DoReplace ''r2'' (report2\<lparr>m_Contact := anna\<rparr>)
       \<in> set (fst (snd (listen_handler (env_replace_fails ''r1'') msg_anna store0)))
   \<and> doc_at ''r2'' (fst (listen_handler (env_replace_fails ''r1'') msg_anna store0))
       = Some (report2\<lparr>m_Contact := anna\<rparr>)
   \<and> set [report2, report1] = set [report1, report2]
   \<and> distinct (map m_Id [report2, report1])
   \<and> fst (fan_out (env_replace_fails ''r1'') [report2, report1] anna store0)
       = fst (listen_handler (env_replace_fails ''r1'') msg_anna store0)"
proof -
  let ?ev = "env_replace_fails ''r1''"
  have h1: "distinct (map m_Id store0)" by (simp add: fixture_defs)
  have h2: "query_err ?ev = None" by (simp add: fixture_defs)
  have h3: "fst (Unmarshal ?ev (Data msg_anna)) = anna" by (simp add: fixture_defs)
  have h4: "filter (\<lambda>d. c_Id (m_Contact d) = c_Id anna) store0 = [report1, report2]"
    by (simp add: fixture_defs)
  have one: "\<forall>v\<in>set [report1, report2]. (replace_err ?ev (m_Id v) \<noteq> None) = (v = report1)"
    by (simp add: fixture_defs)
  have perm: "set [report2, report1] = set [report1, report2] \<and> distinct (map m_Id [report2, report1])"
    by (auto simp: fixture_defs)
  have new1: "report1\<lparr>m_Contact := (m_Contact report1)\<lparr>c_Firstname := c_Firstname anna,
                 c_Lastname := c_Lastname anna, c_AvatarLocation := c_AvatarLocation anna,
                 c_Company := c_Company anna\<rparr>, m_Type := ''visitreport''\<rparr>
               = report1\<lparr>m_Contact := anna\<rparr>"
    by (simp add: fixture_defs)
  have new2: "report2\<lparr>m_Contact := (m_Contact report2)\<lparr>c_Firstname := c_Firstname anna,
                 c_Lastname := c_Lastname anna, c_AvatarLocation := c_AvatarLocation anna,
                 c_Company := c_Company anna\<rparr>, m_Type := ''visitreport''\<rparr>
               = report2\<lparr>m_Contact := anna\<rparr>"
    by (simp add: fixture_defs)
  have i1: "m_Id report1 = ''r1''" by (simp add: report1_def)
  have i2: "m_Id report2 = ''r2''" by (simp add: report2_def)
  have ne: "report2 \<noteq> report1" by (simp add: report1_def report2_def)
  note T = fan_out_failures_are_isolated [OF h1 h2 h3 [symmetric] h4 [symmetric]]
  from T have len: "length (filter is_replace (fst (snd (listen_handler ?ev msg_anna store0)))) = 2"
    by simp
  from T have made: "\<forall>v\<in>set [report1, report2].
             DoReplace (m_Id v)
               (v\<lparr>m_Contact := (m_Contact v)\<lparr>c_Firstname := c_Firstname anna,
                                                c_Lastname := c_Lastname anna,
                                                c_AvatarLocation := c_AvatarLocation anna,
                                                c_Company := c_Company anna\<rparr>,
                  m_Type := ''visitreport''\<rparr>)
               \<in> set (fst (snd (listen_handler ?ev msg_anna store0)))"
    by (rule conjunct1 [OF conjunct2])
  have m1: "DoReplace ''r1'' (report1\<lparr>m_Contact := anna\<rparr>)
              \<in> set (fst (snd (listen_handler ?ev msg_anna store0)))"
    using bspec [OF made, of report1] by (simp add: new1 i1)
  have m2: "DoReplace ''r2'' (report2\<lparr>m_Contact := anna\<rparr>)
              \<in> set (fst (snd (listen_handler ?ev msg_anna store0)))"
    using bspec [OF made, of report2] by (simp add: new2 i2)
  from T have others: "\<forall>f\<in>set [report1, report2].
             (\<forall>v\<in>set [report1, report2]. (replace_err ?ev (m_Id v) \<noteq> None) = (v = f)) \<longrightarrow>
             (\<forall>v\<in>set [report1, report2]. v \<noteq> f \<longrightarrow>
                doc_at (m_Id v) (fst (listen_handler ?ev msg_anna store0))
                  = Some (v\<lparr>m_Contact := (m_Contact v)\<lparr>c_Firstname := c_Firstname anna,
                                                         c_Lastname := c_Lastname anna,
                                                         c_AvatarLocation := c_AvatarLocation anna,
                                                         c_Company := c_Company anna\<rparr>,
                            m_Type := ''visitreport''\<rparr>))"
    by (rule conjunct1 [OF conjunct2 [OF conjunct2 [OF conjunct2]]])
  have "\<forall>v\<in>set [report1, report2]. v \<noteq> report1 \<longrightarrow>
                doc_at (m_Id v) (fst (listen_handler ?ev msg_anna store0))
                  = Some (v\<lparr>m_Contact := (m_Contact v)\<lparr>c_Firstname := c_Firstname anna,
                                                         c_Lastname := c_Lastname anna,
                                                         c_AvatarLocation := c_AvatarLocation anna,
                                                         c_Company := c_Company anna\<rparr>,
                            m_Type := ''visitreport''\<rparr>)"
    using bspec [OF others, of report1] one by simp
  then have at2: "doc_at ''r2'' (fst (listen_handler ?ev msg_anna store0))
                    = Some (report2\<lparr>m_Contact := anna\<rparr>)"
    using ne by (simp add: new2 i2)
  from T have "\<forall>run. set run = set [report1, report2] \<and> distinct (map m_Id run) \<longrightarrow>
             fst (fan_out ?ev run anna store0) = fst (listen_handler ?ev msg_anna store0)
             \<and> length (filter is_replace (snd (fan_out ?ev run anna store0))) = length [report1, report2]
             \<and> (\<forall>v\<in>set [report1, report2].
                   DoReplace (m_Id v)
                     (v\<lparr>m_Contact := (m_Contact v)\<lparr>c_Firstname := c_Firstname anna,
                                                      c_Lastname := c_Lastname anna,
                                                      c_AvatarLocation := c_AvatarLocation anna,
                                                      c_Company := c_Company anna\<rparr>,
                        m_Type := ''visitreport''\<rparr>)
                     \<in> set (snd (fan_out ?ev run anna store0)))"
    by (rule conjunct2 [OF conjunct2 [OF conjunct2 [OF conjunct2 [OF conjunct2]]]])
  then have "set [report2, report1] = set [report1, report2] \<and> distinct (map m_Id [report2, report1]) \<longrightarrow>
             fst (fan_out ?ev [report2, report1] anna store0) = fst (listen_handler ?ev msg_anna store0)"
    by blast
  with perm have ord: "fst (fan_out ?ev [report2, report1] anna store0)
                         = fst (listen_handler ?ev msg_anna store0)"
    by (rule rev_mp)
  have f1: "replace_err ?ev (m_Id report1) \<noteq> None" and f2: "replace_err ?ev (m_Id report2) = None"
    by (simp_all add: fixture_defs)
  from h1 h2 h3 h4 f1 f2 len m1 m2 at2 perm ord show ?thesis by (intro conjI) simp_all
qed

section \<open>The HTTP handlers: publication and response\<close>

text \<open>
  C5, evaluated on the code: the claim says that a failed publication leaves the HTTP
  response as it is when publication succeeds. With the send succeeding \<^verbatim>\<open>create\<close> writes
  201 and the projection, and \<^verbatim>\<open>update\<close> writes 200 and a body; with the send failing
  each of them has persisted the report, prints the error and returns before \<^verbatim>\<open>c.JSON\<close>:
  it writes no status and no body.
\<close>

theorem publish_failure_drops_response:
  "snd (snd (create env_ok (Inr new_report) store0))
     = [JSON 201 (ReadDocBody (Copy_ReadDoc_from_Model zero_VisitReportReadDoc
                                 (new_report\<lparr>m_Type := ''visitreport'', m_Id := ''r4''\<rparr>)))]
   \<and> snd (snd (create env_send_fails (Inr new_report) store0)) = []
   \<and> fst (create env_send_fails (Inr new_report) store0)
       = store0 @ [new_report\<lparr>m_Type := ''visitreport'', m_Id := ''r4''\<rparr>]
   \<and> snd (snd (update env_ok ''r1'' (Inr update_r1) store0))
       = [JSON 200 (ReadDocBody zero_VisitReportReadDoc)]
   \<and> snd (snd (update env_send_fails ''r1'' (Inr update_r1) store0)) = []
   \<and> fst (update env_send_fails ''r1'' (Inr update_r1) store0)
       = [report1\<lparr>m_Result := ''signed''\<rparr>, report3, report2]"
  by (simp add: run_defs fixture_defs)

text \<open>
  C8, evaluated on the code: the claim says that a successful update returns the
  projection of the updated report. The update of \<^verbatim>\<open>r1\<close> persists the new result and
  publishes the event, and then sends the zero \<^verbatim>\<open>VisitReportReadDoc\<close> as the body: its id
  and result are empty where the projection of the stored report has \<^verbatim>\<open>r1\<close> and
  \<^verbatim>\<open>signed\<close>.
\<close>

theorem update_answers_with_empty_projection:
  "snd (snd (update env_ok ''r1'' (Inr update_r1) store0))
     = [JSON 200 (ReadDocBody zero_VisitReportReadDoc)]
   \<and> doc_at ''r1'' (fst (update env_ok ''r1'' (Inr update_r1) store0))
       = Some (report1\<lparr>m_Result := ''signed''\<rparr>)
   \<and> r_Id (Copy_ReadDoc_from_Model zero_VisitReportReadDoc (report1\<lparr>m_Result := ''signed''\<rparr>)) = ''r1''
   \<and> r_Result (Copy_ReadDoc_from_Model zero_VisitReportReadDoc (report1\<lparr>m_Result := ''signed''\<rparr>)) = ''signed''
   \<and> r_Id zero_VisitReportReadDoc = []
   \<and> r_Result zero_VisitReportReadDoc = []"
  by (simp add: run_defs fixture_defs)



text \<open>
  C10: \<^verbatim>\<open>delete\<close> writes the status 200 and nothing else, for every request and every
  answer of the store; when the store call returns an error, the handler prints it, and
  the collection is as before.
\<close>

theorem delete_answers_200:
  "snd (snd (delete ev reportid coll)) = [Status 200]
   \<and> (\<forall>e. snd (DeleteDocument ev reportid coll) = Some e \<longrightarrow>
         fst (snd (delete ev reportid coll)) = [DoDelete reportid, Print e]
         \<and> fst (delete ev reportid coll) = coll)"
  by (auto simp: delete_def DeleteDocument_def log_err_def split_beta Let_def split: option.splits if_splits)

text \<open>An instance of C10: the store refuses the delete, the response is 200.\<close>

theorem delete_answers_200_witness:
  "snd (DeleteDocument env_delete_fails ''r1'' store0) = Some ''503 Service Unavailable''
   \<and> delete env_delete_fails ''r1'' store0
       = (store0, [DoDelete ''r1'', Print ''503 Service Unavailable''], [Status 200])"
proof -
  have h: "snd (DeleteDocument env_delete_fails ''r1'' store0) = Some ''503 Service Unavailable''"
    by (simp add: DeleteDocument_def env_delete_fails_def env_ok_def)
  from delete_answers_200 [of env_delete_fails "''r1''" store0] h
  show ?thesis by (simp add: prod_eq_iff)
qed

end
